theory Spec2Isabelle
  imports Main "HOL-Library.Word"
begin

section \<open>Strings of the page\<close>

text \<open>
  The page is TypeScript: a string is a sequence of 16-bit code units, \<open>s.length\<close> is the
  number of code units, and \<open>s.trim()\<close> strips the code units that ECMAScript calls
  WhiteSpace or LineTerminator from both ends. All of them lie in the Basic Multilingual
  Plane, so trimming works code unit by code unit.
\<close>

type_synonym jschar = "16 word"
type_synonym jsstring = "jschar list"

definition js :: "string \<Rightarrow> jsstring" where
  \<comment> \<open>an ASCII literal of the source as code units\<close>
  "js s = map of_char s"

definition isWhiteSpace :: "jschar \<Rightarrow> bool" where
  \<comment> \<open>TAB, VT, FF, ZWNBSP, the space separators (category Zs), then LF, CR, LS, PS\<close>
  "isWhiteSpace c \<longleftrightarrow>
     c = 0x0009 \<or> c = 0x000B \<or> c = 0x000C \<or> c = 0xFEFF \<or>
     c = 0x0020 \<or> c = 0x00A0 \<or> c = 0x1680 \<or> (0x2000 \<le> c \<and> c \<le> 0x200A) \<or>
     c = 0x202F \<or> c = 0x205F \<or> c = 0x3000 \<or>
     c = 0x000A \<or> c = 0x000D \<or> c = 0x2028 \<or> c = 0x2029"

definition trim :: "jsstring \<Rightarrow> jsstring" where
  "trim s = rev (dropWhile isWhiteSpace (rev (dropWhile isWhiteSpace s)))"

section \<open>Form data and form errors\<close>

text \<open>
  \<open>FormDataProps\<close>: the query type is one of two string literals or \<open>null\<close>
  (\<open>None\<close>), the rest are strings and a boolean.
\<close>

datatype query = generalEnquiry | supportRequest

record FormDataProps =
  queryType :: "query option"
  firstName :: jsstring
  lastName :: jsstring
  email :: jsstring
  message :: jsstring
  consent :: bool

text \<open>
  \<open>FormErrorsProps\<close> is an object whose six properties are all optional strings. An
  object distinguishes a property that is missing from one that is there and holds
  \<open>undefined\<close>: \<open>Object.keys\<close> lists the second and not the first, while reading either
  gives \<open>undefined\<close>. So an errors object is a map from the property name to what the
  property holds, \<open>None\<close> standing for \<open>undefined\<close>.
\<close>

datatype field = QueryType | FirstName | LastName | Email | Message | Consent

type_synonym FormErrorsProps = "field \<rightharpoonup> jsstring option"

definition readProp :: "FormErrorsProps \<Rightarrow> field \<Rightarrow> jsstring option" where
  \<comment> \<open>the property read \<open>errors.k\<close>\<close>
  "readProp errors k = (case errors k of None \<Rightarrow> None | Some v \<Rightarrow> v)"

definition propertyNames :: "field list" where
  "propertyNames = [QueryType, FirstName, LastName, Email, Message, Consent]"

definition objectKeys :: "FormErrorsProps \<Rightarrow> field list" where
  \<comment> \<open>\<open>Object.keys(errors)\<close>; only its length is ever used\<close>
  "objectKeys errors = filter (\<lambda>k. errors k \<noteq> None) propertyNames"

section \<open>The schemas\<close>

text \<open>
  Each schema is modelled by the success flag of its \<open>safeParse\<close> on a value of the
  field's type: \<open>z.enum\<close> of the two literals accepts exactly these two and so rejects
  \<open>null\<close>; \<open>z.string().min(a).max(b)\<close> accepts a string whose length lies between
  \<open>a\<close> and \<open>b\<close>; \<open>z.literal(true)\<close> accepts \<open>true\<close> only. What
  \<open>z.string().email()\<close> accepts is decided inside the schema library, so the email
  schema is a parameter \<open>emailSchema\<close> of everything below.
\<close>

definition queryTypeSchema :: "query option \<Rightarrow> bool" where
  "queryTypeSchema q = (case q of None \<Rightarrow> False | Some generalEnquiry \<Rightarrow> True | Some supportRequest \<Rightarrow> True)"

definition firstNameSchema :: "jsstring \<Rightarrow> bool" where
  "firstNameSchema s \<longleftrightarrow> 2 \<le> length s \<and> length s \<le> 50"

definition lastNameSchema :: "jsstring \<Rightarrow> bool" where
  "lastNameSchema s \<longleftrightarrow> 2 \<le> length s \<and> length s \<le> 50"

definition messageSchema :: "jsstring \<Rightarrow> bool" where
  "messageSchema s \<longleftrightarrow> 10 \<le> length s \<and> length s \<le> 500"

definition consentSchema :: "bool \<Rightarrow> bool" where
  "consentSchema b \<longleftrightarrow> b = True"

section \<open>validateForm\<close>

definition validateForm :: "(jsstring \<Rightarrow> bool) \<Rightarrow> FormDataProps \<Rightarrow> FormErrorsProps" where
  "validateForm emailSchema formData =
    (let errors = Map.empty;
         errors =
           (if \<not> queryTypeSchema (queryType formData)
            then errors(QueryType \<mapsto> Some (js ''Please select a query type''))
            else errors);
         errors =
           (if \<not> firstNameSchema (firstName formData)
            then errors(FirstName \<mapsto> Some (js ''First name must be between 2 and 50 characters''))
            else if trim (firstName formData) = []
            then errors(FirstName \<mapsto> Some (js ''This field is required''))
            else errors);
         errors =
           (if \<not> lastNameSchema (lastName formData)
            then errors(LastName \<mapsto> Some (js ''Last name must be between 2 and 50 characters''))
            else if trim (lastName formData) = []
            then errors(LastName \<mapsto> Some (js ''This field is required''))
            else errors);
         errors =
           (if \<not> emailSchema (email formData)
            then errors(Email \<mapsto> Some (js ''Please enter a valid email address''))
            else errors);
         errors =
           (if \<not> messageSchema (message formData)
            then errors(Message \<mapsto> Some (js ''Message must be between 10 and 500 characters.''))
            else if trim (message formData) = []
            then errors(Message \<mapsto> Some (js ''This field is required''))
            else errors);
         errors =
           (if \<not> consentSchema (consent formData)
            then errors(Consent \<mapsto> Some (js ''To submit this form, please consent to being contacted''))
            else errors)
     in errors)"

section \<open>The field rules as the specification words them\<close>

text \<open>
  The value of one field of a snapshot, and the rule of section 4.1 of the specification
  for that field, read off its table: the query type is one of the two choices, a name has
  a length in [2,50] and is not made of whitespace only, the email matches the email
  syntax, the message has a length in [10,500] and is not made of whitespace only, consent
  is \<open>true\<close>. The rule of a field looks at the value of that field and at nothing else.
\<close>

datatype fieldValue = QueryV "query option" | TextV jsstring | BoolV bool

fun valueOf :: "field \<Rightarrow> FormDataProps \<Rightarrow> fieldValue" where
  "valueOf QueryType formData = QueryV (queryType formData)"
| "valueOf FirstName formData = TextV (firstName formData)"
| "valueOf LastName formData = TextV (lastName formData)"
| "valueOf Email formData = TextV (email formData)"
| "valueOf Message formData = TextV (message formData)"
| "valueOf Consent formData = BoolV (consent formData)"

definition whitespaceOnly :: "jsstring \<Rightarrow> bool" where
  "whitespaceOnly s \<longleftrightarrow> list_all isWhiteSpace s"

fun satisfiesRule :: "(jsstring \<Rightarrow> bool) \<Rightarrow> field \<Rightarrow> fieldValue \<Rightarrow> bool" where
  "satisfiesRule emailSyntax QueryType (QueryV q) =
     (q = Some generalEnquiry \<or> q = Some supportRequest)"
| "satisfiesRule emailSyntax FirstName (TextV s) =
     (2 \<le> length s \<and> length s \<le> 50 \<and> \<not> whitespaceOnly s)"
| "satisfiesRule emailSyntax LastName (TextV s) =
     (2 \<le> length s \<and> length s \<le> 50 \<and> \<not> whitespaceOnly s)"
| "satisfiesRule emailSyntax Email (TextV s) = emailSyntax s"
| "satisfiesRule emailSyntax Message (TextV s) =
     (10 \<le> length s \<and> length s \<le> 500 \<and> \<not> whitespaceOnly s)"
| "satisfiesRule emailSyntax Consent (BoolV b) = b"
| "satisfiesRule emailSyntax k v = False"

section \<open>validateForm on the object store\<close>

text \<open>
  Objects are references: a function that receives an object could write to it, and to any
  other object it can reach. To state what \<open>validateForm\<close> leaves alone, this second
  model runs its statements on an explicit store. The store is the list of the objects
  allocated so far, an address is a position in it, and an object maps the names of its
  properties to primitive values. \<open>const errors = {}\<close> allocates a new object;
  \<open>formData.k\<close> reads a property (\<open>undefined\<close> when it is missing) and
  \<open>errors.k = v\<close> writes one. The schemas now receive a value of any type, and
  accept what they accept in section "The schemas". \<open>trimsToEmpty\<close> is
  \<open>v.trim() === ""\<close>; it is reached only after the schema has accepted \<open>v\<close>, which
  is then a string. Each of the six blocks of \<open>validateForm\<close> is a function of its own.
  An address that a function receives is that of an allocated object, so the facts about
  \<open>validateForm_store\<close> are stated for an argument below the length of the store.
\<close>

datatype jsval = VUndefined | VNull | VBool bool | VString jsstring

type_synonym jsobject = "field \<rightharpoonup> jsval"
type_synonym store = "jsobject list"

definition newObject :: "store \<Rightarrow> nat \<times> store" where
  "newObject h = (length h, h @ [Map.empty])"

definition getField :: "store \<Rightarrow> nat \<Rightarrow> field \<Rightarrow> jsval" where
  "getField h a k = (case (h ! a) k of None \<Rightarrow> VUndefined | Some v \<Rightarrow> v)"

definition setField :: "store \<Rightarrow> nat \<Rightarrow> field \<Rightarrow> jsval \<Rightarrow> store" where
  "setField h a k v = h[a := (h ! a)(k \<mapsto> v)]"

definition queryTypeSchema_val :: "jsval \<Rightarrow> bool" where
  "queryTypeSchema_val v \<longleftrightarrow>
     v = VString (js ''generalEnquiry'') \<or> v = VString (js ''supportRequest'')"

definition firstNameSchema_val :: "jsval \<Rightarrow> bool" where
  "firstNameSchema_val v = (case v of VString s \<Rightarrow> 2 \<le> length s \<and> length s \<le> 50 | _ \<Rightarrow> False)"

definition lastNameSchema_val :: "jsval \<Rightarrow> bool" where
  "lastNameSchema_val v = (case v of VString s \<Rightarrow> 2 \<le> length s \<and> length s \<le> 50 | _ \<Rightarrow> False)"

definition emailSchema_val :: "(jsstring \<Rightarrow> bool) \<Rightarrow> jsval \<Rightarrow> bool" where
  "emailSchema_val emailSchema v = (case v of VString s \<Rightarrow> emailSchema s | _ \<Rightarrow> False)"

definition messageSchema_val :: "jsval \<Rightarrow> bool" where
  "messageSchema_val v = (case v of VString s \<Rightarrow> 10 \<le> length s \<and> length s \<le> 500 | _ \<Rightarrow> False)"

definition consentSchema_val :: "jsval \<Rightarrow> bool" where
  "consentSchema_val v \<longleftrightarrow> v = VBool True"

definition trimsToEmpty :: "jsval \<Rightarrow> bool" where
  "trimsToEmpty v = (case v of VString s \<Rightarrow> trim s = [] | _ \<Rightarrow> False)"

definition check_queryType :: "store \<Rightarrow> nat \<Rightarrow> nat \<Rightarrow> store" where
  "check_queryType h errors formData =
     (if \<not> queryTypeSchema_val (getField h formData QueryType)
      then setField h errors QueryType (VString (js ''Please select a query type''))
      else h)"

definition check_firstName :: "store \<Rightarrow> nat \<Rightarrow> nat \<Rightarrow> store" where
  "check_firstName h errors formData =
     (if \<not> firstNameSchema_val (getField h formData FirstName)
      then setField h errors FirstName
             (VString (js ''First name must be between 2 and 50 characters''))
      else if trimsToEmpty (getField h formData FirstName)
      then setField h errors FirstName (VString (js ''This field is required''))
      else h)"

definition check_lastName :: "store \<Rightarrow> nat \<Rightarrow> nat \<Rightarrow> store" where
  "check_lastName h errors formData =
     (if \<not> lastNameSchema_val (getField h formData LastName)
      then setField h errors LastName
             (VString (js ''Last name must be between 2 and 50 characters''))
      else if trimsToEmpty (getField h formData LastName)
      then setField h errors LastName (VString (js ''This field is required''))
      else h)"

definition check_email :: "(jsstring \<Rightarrow> bool) \<Rightarrow> store \<Rightarrow> nat \<Rightarrow> nat \<Rightarrow> store" where
  "check_email emailSchema h errors formData =
     (if \<not> emailSchema_val emailSchema (getField h formData Email)
      then setField h errors Email (VString (js ''Please enter a valid email address''))
      else h)"

definition check_message :: "store \<Rightarrow> nat \<Rightarrow> nat \<Rightarrow> store" where
  "check_message h errors formData =
     (if \<not> messageSchema_val (getField h formData Message)
      then setField h errors Message
             (VString (js ''Message must be between 10 and 500 characters.''))
      else if trimsToEmpty (getField h formData Message)
      then setField h errors Message (VString (js ''This field is required''))
      else h)"

definition check_consent :: "store \<Rightarrow> nat \<Rightarrow> nat \<Rightarrow> store" where
  "check_consent h errors formData =
     (if \<not> consentSchema_val (getField h formData Consent)
      then setField h errors Consent
             (VString (js ''To submit this form, please consent to being contacted''))
      else h)"

definition validateForm_store :: "(jsstring \<Rightarrow> bool) \<Rightarrow> store \<Rightarrow> nat \<Rightarrow> nat \<times> store" where
  "validateForm_store emailSchema h formData =
    (let (errors, h) = newObject h;
         h = check_queryType h errors formData;
         h = check_firstName h errors formData;
         h = check_lastName h errors formData;
         h = check_email emailSchema h errors formData;
         h = check_message h errors formData;
         h = check_consent h errors formData
     in (errors, h))"

text \<open>
  How a snapshot and an errors object of the first model are laid out as objects of the
  store.
\<close>

definition queryTypeValue :: "query option \<Rightarrow> jsval" where
  "queryTypeValue q =
     (case q of None \<Rightarrow> VNull
      | Some generalEnquiry \<Rightarrow> VString (js ''generalEnquiry'')
      | Some supportRequest \<Rightarrow> VString (js ''supportRequest''))"

fun formDataObject :: "FormDataProps \<Rightarrow> jsobject" where
  "formDataObject formData QueryType = Some (queryTypeValue (queryType formData))"
| "formDataObject formData FirstName = Some (VString (firstName formData))"
| "formDataObject formData LastName = Some (VString (lastName formData))"
| "formDataObject formData Email = Some (VString (email formData))"
| "formDataObject formData Message = Some (VString (message formData))"
| "formDataObject formData Consent = Some (VBool (consent formData))"

definition errorsObject :: "FormErrorsProps \<Rightarrow> jsobject" where
  "errorsObject errors k =
     (case errors k of None \<Rightarrow> None | Some None \<Rightarrow> Some VUndefined | Some (Some m) \<Rightarrow> Some (VString m))"

section \<open>The page component\<close>

text \<open>
  \<open>Home\<close> keeps nine state cells (\<open>useState\<close>); a cell that shares its name with a
  property of \<open>FormDataProps\<close> carries the suffix \<open>_st\<close>. \<open>selectedQuery\<close> only ever
  holds \<open>null\<close> or one of the two literals, and \<open>getFormData\<close> casts it to the query
  type, so the cell has that type here. Two more components stand for the browser: its
  clock in milliseconds and the due times of the timeouts that are pending. Every timeout
  of this page has the same callback, \<open>setShowPopup(false)\<close>.
\<close>

record Home =
  firstName_st :: jsstring
  lastName_st :: jsstring
  email_st :: jsstring
  selectedQuery :: "query option"
  consent_st :: bool
  message_st :: jsstring
  errors :: FormErrorsProps
  formSubmitted :: bool
  showPopup :: bool
  clock :: nat
  timeouts :: "nat list"

definition initial :: Home where
  "initial =
     \<lparr>firstName_st = [], lastName_st = [], email_st = [], selectedQuery = None,
      consent_st = False, message_st = [], errors = Map.empty, formSubmitted = False,
      showPopup = False, clock = 0, timeouts = []\<rparr>"

definition getFormData :: "Home \<Rightarrow> FormDataProps" where
  "getFormData s =
     \<lparr>queryType = selectedQuery s, firstName = firstName_st s, lastName = lastName_st s,
      email = email_st s, message = message_st s, consent = consent_st s\<rparr>"

text \<open>
  A handler runs to completion on the cells of the last render and the page renders again
  before the next event, so a handler is a function from the state before the event to the
  state after it. \<open>setTimeout(f, 5000)\<close> adds a pending timeout that is due 5000 ms
  after the current time.
\<close>

definition handleFormSubmit :: "(jsstring \<Rightarrow> bool) \<Rightarrow> Home \<Rightarrow> Home" where
  "handleFormSubmit emailSchema s =
    (let s' = s\<lparr>formSubmitted := True\<rparr>;
         formData = getFormData s;
         validationErrors = validateForm emailSchema formData;
         s' = s'\<lparr>errors := validationErrors\<rparr>
     in if length (objectKeys validationErrors) = 0
        then s'\<lparr>showPopup := True, timeouts := timeouts s' @ [clock s' + 5000]\<rparr>
        else s')"

definition onChange_firstName :: "(jsstring \<Rightarrow> bool) \<Rightarrow> jsstring \<Rightarrow> Home \<Rightarrow> Home" where
  "onChange_firstName emailSchema v s =
    (let s' = s\<lparr>firstName_st := v\<rparr>
     in if formSubmitted s
        then let newErrors = validateForm emailSchema ((getFormData s)\<lparr>firstName := v\<rparr>)
             in s'\<lparr>errors := (errors s')(FirstName \<mapsto> readProp newErrors FirstName)\<rparr>
        else s')"

definition onChange_lastName :: "(jsstring \<Rightarrow> bool) \<Rightarrow> jsstring \<Rightarrow> Home \<Rightarrow> Home" where
  "onChange_lastName emailSchema v s =
    (let s' = s\<lparr>lastName_st := v\<rparr>
     in if formSubmitted s
        then let newErrors = validateForm emailSchema ((getFormData s)\<lparr>lastName := v\<rparr>)
             in s'\<lparr>errors := (errors s')(LastName \<mapsto> readProp newErrors LastName)\<rparr>
        else s')"

definition onChange_email :: "(jsstring \<Rightarrow> bool) \<Rightarrow> jsstring \<Rightarrow> Home \<Rightarrow> Home" where
  "onChange_email emailSchema v s =
    (let s' = s\<lparr>email_st := v\<rparr>
     in if formSubmitted s
        then let newErrors = validateForm emailSchema ((getFormData s)\<lparr>email := v\<rparr>)
             in s'\<lparr>errors := (errors s')(Email \<mapsto> readProp newErrors Email)\<rparr>
        else s')"

definition onClick_generalEnquiry :: "(jsstring \<Rightarrow> bool) \<Rightarrow> Home \<Rightarrow> Home" where
  "onClick_generalEnquiry emailSchema s =
    (let s' = s\<lparr>selectedQuery := Some generalEnquiry\<rparr>
     in if formSubmitted s
        then let newErrors =
                   validateForm emailSchema ((getFormData s)\<lparr>queryType := Some generalEnquiry\<rparr>)
             in s'\<lparr>errors := (errors s')(QueryType \<mapsto> readProp newErrors QueryType)\<rparr>
        else s')"

definition onClick_supportRequest :: "(jsstring \<Rightarrow> bool) \<Rightarrow> Home \<Rightarrow> Home" where
  "onClick_supportRequest emailSchema s =
    (let s' = s\<lparr>selectedQuery := Some supportRequest\<rparr>
     in if formSubmitted s
        then let newErrors =
                   validateForm emailSchema ((getFormData s)\<lparr>queryType := Some supportRequest\<rparr>)
             in s'\<lparr>errors := (errors s')(QueryType \<mapsto> readProp newErrors QueryType)\<rparr>
        else s')"

definition onChange_message :: "(jsstring \<Rightarrow> bool) \<Rightarrow> jsstring \<Rightarrow> Home \<Rightarrow> Home" where
  "onChange_message emailSchema v s =
    (let s' = s\<lparr>message_st := v\<rparr>
     in if formSubmitted s
        then let newErrors = validateForm emailSchema ((getFormData s)\<lparr>message := v\<rparr>)
             in s'\<lparr>errors := (errors s')(Message \<mapsto> readProp newErrors Message)\<rparr>
        else s')"

definition onClick_consent :: "(jsstring \<Rightarrow> bool) \<Rightarrow> Home \<Rightarrow> Home" where
  "onClick_consent emailSchema s =
    (let s' = s\<lparr>consent_st := \<not> consent_st s\<rparr>
     in if formSubmitted s
        then let newErrors =
                   validateForm emailSchema ((getFormData s)\<lparr>consent := \<not> consent_st s\<rparr>)
             in s'\<lparr>errors := (errors s')(Consent \<mapsto> readProp newErrors Consent)\<rparr>
        else s')"

subsection \<open>Events\<close>

text \<open>
  The events of the page: the seven handlers of the inputs, the submit, the passing of
  time, and the firing of the pending timeout at a position of the list. The browser runs
  the callback of a timeout no earlier than its due time, and may run it later: a timeout
  that is not pending, or not yet due, cannot fire (\<open>None\<close>).
\<close>

datatype event =
  ChangeFirstName jsstring
| ChangeLastName jsstring
| ChangeEmail jsstring
| ClickGeneralEnquiry
| ClickSupportRequest
| ChangeMessage jsstring
| ClickConsent
| Submit
| Elapse nat
| TimeoutFires nat

definition timeoutFires :: "nat \<Rightarrow> Home \<Rightarrow> Home option" where
  "timeoutFires i s =
    (if i < length (timeouts s) \<and> timeouts s ! i \<le> clock s
     then Some (s\<lparr>showPopup := False,
                  timeouts := take i (timeouts s) @ drop (Suc i) (timeouts s)\<rparr>)
     else None)"

fun step :: "(jsstring \<Rightarrow> bool) \<Rightarrow> Home \<Rightarrow> event \<Rightarrow> Home option" where
  "step emailSchema s (ChangeFirstName v) = Some (onChange_firstName emailSchema v s)"
| "step emailSchema s (ChangeLastName v) = Some (onChange_lastName emailSchema v s)"
| "step emailSchema s (ChangeEmail v) = Some (onChange_email emailSchema v s)"
| "step emailSchema s ClickGeneralEnquiry = Some (onClick_generalEnquiry emailSchema s)"
| "step emailSchema s ClickSupportRequest = Some (onClick_supportRequest emailSchema s)"
| "step emailSchema s (ChangeMessage v) = Some (onChange_message emailSchema v s)"
| "step emailSchema s ClickConsent = Some (onClick_consent emailSchema s)"
| "step emailSchema s Submit = Some (handleFormSubmit emailSchema s)"
| "step emailSchema s (Elapse d) = Some (s\<lparr>clock := clock s + d\<rparr>)"
| "step emailSchema s (TimeoutFires i) = timeoutFires i s"

fun run :: "(jsstring \<Rightarrow> bool) \<Rightarrow> Home \<Rightarrow> event list \<Rightarrow> Home option" where
  "run emailSchema s [] = Some s"
| "run emailSchema s (e # es) =
     (case step emailSchema s e of None \<Rightarrow> None | Some s' \<Rightarrow> run emailSchema s' es)"

text \<open>
  The field an event edits and the value it gives that field; a submit, the passing of
  time and a timeout edit nothing.
\<close>

fun edit :: "event \<Rightarrow> Home \<Rightarrow> (field \<times> fieldValue) option" where
  "edit (ChangeFirstName v) s = Some (FirstName, TextV v)"
| "edit (ChangeLastName v) s = Some (LastName, TextV v)"
| "edit (ChangeEmail v) s = Some (Email, TextV v)"
| "edit ClickGeneralEnquiry s = Some (QueryType, QueryV (Some generalEnquiry))"
| "edit ClickSupportRequest s = Some (QueryType, QueryV (Some supportRequest))"
| "edit (ChangeMessage v) s = Some (Message, TextV v)"
| "edit ClickConsent s = Some (Consent, BoolV (\<not> consent_st s))"
| "edit Submit s = None"
| "edit (Elapse d) s = None"
| "edit (TimeoutFires i) s = None"

section \<open>Sample inputs\<close>

text \<open>
  Abbreviations for concrete inputs: a stand-in for the email schema that accepts a
  string containing the code unit of \<open>@\<close>, the valid submission of the
  specification's section 8, the events that type it into the form, and the state of the
  page after them.
\<close>

abbreviation (input) containsAt :: "jsstring \<Rightarrow> bool" where
  "containsAt s \<equiv> 0x40 \<in> set s"

abbreviation (input) janeDoe :: FormDataProps where
  "janeDoe \<equiv>
     \<lparr>queryType = Some generalEnquiry, firstName = js ''Jane'', lastName = js ''Doe'',
      email = js ''jane@example.com'', message = js ''Hello, this is a test message.'',
      consent = True\<rparr>"


abbreviation (input) filledIn :: Home where
  "filledIn \<equiv>
     \<lparr>firstName_st = js ''Jane'', lastName_st = js ''Doe'', email_st = js ''jane@example.com'',
      selectedQuery = Some generalEnquiry, consent_st = True,
      message_st = js ''Hello, this is a test message.'', errors = Map.empty,
      formSubmitted = False, showPopup = False, clock = 0, timeouts = []\<rparr>"

section \<open>Facts about strings\<close>

lemma dropWhile_all_Nil:
  assumes "\<forall>x\<in>set (dropWhile P xs). P x"
  shows "dropWhile P xs = []"
proof (cases "dropWhile P xs")
  case Nil
  then show ?thesis .
next
  case (Cons y ys)
  then have "\<not> P y"
    using hd_dropWhile [of P xs] by simp
  moreover have "y \<in> set (dropWhile P xs)"
    using Cons by simp
  ultimately show ?thesis
    using assms by blast
qed

lemma trim_empty_iff: "trim s = [] \<longleftrightarrow> whitespaceOnly s"
proof
  assume "trim s = []"
  then have "dropWhile isWhiteSpace (rev (dropWhile isWhiteSpace s)) = []"
    by (simp add: trim_def)
  then have "\<forall>x\<in>set (dropWhile isWhiteSpace s). isWhiteSpace x"
    by (simp add: dropWhile_eq_Nil_conv)
  then have "dropWhile isWhiteSpace s = []"
    by (rule dropWhile_all_Nil)
  then show "whitespaceOnly s"
    by (simp add: whitespaceOnly_def dropWhile_eq_Nil_conv list_all_iff)
next
  assume "whitespaceOnly s"
  then have "\<forall>x\<in>set s. isWhiteSpace x"
    by (simp add: whitespaceOnly_def list_all_iff)
  then show "trim s = []"
    by (auto simp: trim_def dest: set_dropWhileD)
qed

lemma whitespaceOnly_replicate_space: "whitespaceOnly (replicate n 0x20)"
  by (simp add: whitespaceOnly_def list_all_iff isWhiteSpace_def)

lemma required_neq_firstName_range:
  "js ''This field is required'' \<noteq> js ''First name must be between 2 and 50 characters''"
  by (simp add: js_def)

lemma required_neq_lastName_range:
  "js ''This field is required'' \<noteq> js ''Last name must be between 2 and 50 characters''"
  by (simp add: js_def)

lemma required_neq_message_range:
  "js ''This field is required'' \<noteq> js ''Message must be between 10 and 500 characters.''"
  by (simp add: js_def)

section \<open>What validateForm stores under each key\<close>

lemma validateForm_QueryType:
  "validateForm emailSchema formData QueryType =
     (if queryTypeSchema (queryType formData) then None
      else Some (Some (js ''Please select a query type'')))"
  by (simp add: validateForm_def Let_def)

lemma validateForm_FirstName:
  "validateForm emailSchema formData FirstName =
     (if \<not> firstNameSchema (firstName formData)
      then Some (Some (js ''First name must be between 2 and 50 characters''))
      else if trim (firstName formData) = [] then Some (Some (js ''This field is required''))
      else None)"
  by (simp add: validateForm_def Let_def)

lemma validateForm_LastName:
  "validateForm emailSchema formData LastName =
     (if \<not> lastNameSchema (lastName formData)
      then Some (Some (js ''Last name must be between 2 and 50 characters''))
      else if trim (lastName formData) = [] then Some (Some (js ''This field is required''))
      else None)"
  by (simp add: validateForm_def Let_def)

lemma validateForm_Email:
  "validateForm emailSchema formData Email =
     (if emailSchema (email formData) then None
      else Some (Some (js ''Please enter a valid email address'')))"
  by (simp add: validateForm_def Let_def)

lemma validateForm_Message:
  "validateForm emailSchema formData Message =
     (if \<not> messageSchema (message formData)
      then Some (Some (js ''Message must be between 10 and 500 characters.''))
      else if trim (message formData) = [] then Some (Some (js ''This field is required''))
      else None)"
  by (simp add: validateForm_def Let_def)

lemma validateForm_Consent:
  "validateForm emailSchema formData Consent =
     (if consentSchema (consent formData) then None
      else Some (Some (js ''To submit this form, please consent to being contacted'')))"
  by (simp add: validateForm_def Let_def)

lemmas validateForm_at =
  validateForm_QueryType validateForm_FirstName validateForm_LastName
  validateForm_Email validateForm_Message validateForm_Consent

lemma validateForm_never_undefined: "validateForm emailSchema formData k \<noteq> Some None"
  by (cases k) (simp_all add: validateForm_at)

lemma queryTypeSchema_iff: "queryTypeSchema q \<longleftrightarrow> q = Some generalEnquiry \<or> q = Some supportRequest"
  by (simp add: queryTypeSchema_def split: option.split query.split)

lemma key_iff_rule_violated:
  "(validateForm emailSchema formData k \<noteq> None) =
     (\<not> satisfiesRule emailSchema k (valueOf k formData))"
  by (cases k)
    (auto simp: validateForm_at queryTypeSchema_iff firstNameSchema_def lastNameSchema_def
      messageSchema_def consentSchema_def trim_empty_iff)

lemma validateForm_cong_field:
  "valueOf k formData1 = valueOf k formData2 \<Longrightarrow>
     validateForm emailSchema formData1 k = validateForm emailSchema formData2 k"
  by (cases k) (simp_all add: validateForm_at)

lemma janeDoe_satisfies_rules: "satisfiesRule containsAt k (valueOf k janeDoe)"
  by (cases k) (simp_all add: js_def whitespaceOnly_def isWhiteSpace_def)

section \<open>The validator\<close>

text \<open>
  Claim C1. For every snapshot of the form values, the errors object that
  \<open>validateForm\<close> returns has a key for a field exactly when the value of that field
  violates the field's rule of section 4.1, whatever the other fields hold; when every field
  satisfies its rule, the object returned is empty.
\<close>

theorem validateForm_key_iff_rule:
  "(k \<in> dom (validateForm emailSchema formData)) =
     (\<not> satisfiesRule emailSchema k (valueOf k formData)) \<and>
   ((\<forall>k'. satisfiesRule emailSchema k' (valueOf k' formData)) \<longrightarrow>
      validateForm emailSchema formData = Map.empty)"
proof
  show "(k \<in> dom (validateForm emailSchema formData)) =
     (\<not> satisfiesRule emailSchema k (valueOf k formData))"
    using key_iff_rule_violated [of emailSchema formData k] by (simp add: dom_def)
next
  show "(\<forall>k'. satisfiesRule emailSchema k' (valueOf k' formData)) \<longrightarrow>
      validateForm emailSchema formData = Map.empty"
  proof
    assume ok: "\<forall>k'. satisfiesRule emailSchema k' (valueOf k' formData)"
    show "validateForm emailSchema formData = Map.empty"
    proof
      fix k'
      from ok have "satisfiesRule emailSchema k' (valueOf k' formData)" ..
      then show "validateForm emailSchema formData k' = None"
        using key_iff_rule_violated [of emailSchema formData k'] by simp
    qed
  qed
qed

theorem validateForm_key_iff_rule_witness:
  "validateForm containsAt janeDoe = Map.empty \<and>
   dom (validateForm containsAt (janeDoe\<lparr>email := js ''jane.example.com''\<rparr>)) = {Email}"
proof
  show "validateForm containsAt janeDoe = Map.empty"
    using validateForm_key_iff_rule [of QueryType containsAt janeDoe] janeDoe_satisfies_rules
    by blast
next
  let ?fd = "janeDoe\<lparr>email := js ''jane.example.com''\<rparr>"
  have "(k \<in> dom (validateForm containsAt ?fd)) = (k = Email)" for k
    using validateForm_key_iff_rule [of k containsAt ?fd]
    by (cases k) (simp_all add: js_def whitespaceOnly_def isWhiteSpace_def)
  then show "dom (validateForm containsAt ?fd) = {Email}"
    by blast
qed

text \<open>
  Claim C2. A first name, last name or message made of whitespace only gets the error
  "This field is required" when its length is within the bound of the field (ten spaces,
  say), not the message about the length: the check of the trimmed value is reached only
  after the length check has passed, so outside the bound the same string gets the message
  about the length.
\<close>

theorem whitespace_only_is_required:
  assumes "whitespaceOnly s"
  shows "validateForm emailSchema (formData\<lparr>firstName := s\<rparr>) FirstName =
           Some (Some (if 2 \<le> length s \<and> length s \<le> 50 then js ''This field is required''
                       else js ''First name must be between 2 and 50 characters'')) \<and>
         validateForm emailSchema (formData\<lparr>lastName := s\<rparr>) LastName =
           Some (Some (if 2 \<le> length s \<and> length s \<le> 50 then js ''This field is required''
                       else js ''Last name must be between 2 and 50 characters'')) \<and>
         validateForm emailSchema (formData\<lparr>message := s\<rparr>) Message =
           Some (Some (if 10 \<le> length s \<and> length s \<le> 500 then js ''This field is required''
                       else js ''Message must be between 10 and 500 characters.''))"
proof -
  from assms have "trim s = []"
    by (simp add: trim_empty_iff)
  then show ?thesis
    by (simp add: validateForm_at firstNameSchema_def lastNameSchema_def messageSchema_def)
qed

theorem whitespace_only_is_required_witness:
  "validateForm containsAt (janeDoe\<lparr>firstName := replicate 10 0x20\<rparr>) FirstName =
     Some (Some (js ''This field is required'')) \<and>
   validateForm containsAt (janeDoe\<lparr>firstName := replicate 10 0x20\<rparr>) FirstName \<noteq>
     Some (Some (js ''First name must be between 2 and 50 characters'')) \<and>
   validateForm containsAt (janeDoe\<lparr>lastName := replicate 10 0x20\<rparr>) LastName =
     Some (Some (js ''This field is required'')) \<and>
   validateForm containsAt (janeDoe\<lparr>message := replicate 10 0x20\<rparr>) Message =
     Some (Some (js ''This field is required'')) \<and>
   validateForm containsAt (janeDoe\<lparr>message := replicate 10 0x20\<rparr>) Message \<noteq>
     Some (Some (js ''Message must be between 10 and 500 characters.'')) \<and>
   validateForm containsAt (janeDoe\<lparr>message := replicate 9 0x20\<rparr>) Message =
     Some (Some (js ''Message must be between 10 and 500 characters.''))"
  using whitespace_only_is_required
          [where s = "replicate 10 0x20" and emailSchema = containsAt and formData = janeDoe]
    whitespace_only_is_required
          [where s = "replicate 9 0x20" and emailSchema = containsAt and formData = janeDoe]
    whitespaceOnly_replicate_space [of 10] whitespaceOnly_replicate_space [of 9]
    required_neq_firstName_range required_neq_message_range
  by simp

text \<open>
  Claim C9. A first or last name whose length is outside [2,50], the empty string and a
  single space among them, gets the message about the length and never "This field is
  required"; that message is given exactly to the names made of whitespace only whose
  length is within [2,50].
\<close>

theorem name_outside_range_gets_range_message:
  "(\<not> (2 \<le> length (firstName formData) \<and> length (firstName formData) \<le> 50) \<longrightarrow>
      validateForm emailSchema formData FirstName =
        Some (Some (js ''First name must be between 2 and 50 characters''))) \<and>
   (\<not> (2 \<le> length (lastName formData) \<and> length (lastName formData) \<le> 50) \<longrightarrow>
      validateForm emailSchema formData LastName =
        Some (Some (js ''Last name must be between 2 and 50 characters''))) \<and>
   (validateForm emailSchema formData FirstName = Some (Some (js ''This field is required'')) \<longleftrightarrow>
      2 \<le> length (firstName formData) \<and> length (firstName formData) \<le> 50 \<and>
      whitespaceOnly (firstName formData)) \<and>
   (validateForm emailSchema formData LastName = Some (Some (js ''This field is required'')) \<longleftrightarrow>
      2 \<le> length (lastName formData) \<and> length (lastName formData) \<le> 50 \<and>
      whitespaceOnly (lastName formData))"
  using required_neq_firstName_range required_neq_lastName_range
  by (auto simp: validateForm_at firstNameSchema_def lastNameSchema_def trim_empty_iff)

theorem name_outside_range_gets_range_message_witness:
  "validateForm containsAt (janeDoe\<lparr>firstName := [], lastName := [0x20]\<rparr>) FirstName =
     Some (Some (js ''First name must be between 2 and 50 characters'')) \<and>
   validateForm containsAt (janeDoe\<lparr>firstName := [], lastName := [0x20]\<rparr>) LastName =
     Some (Some (js ''Last name must be between 2 and 50 characters'')) \<and>
   validateForm containsAt (janeDoe\<lparr>firstName := [], lastName := [0x20]\<rparr>) FirstName \<noteq>
     Some (Some (js ''This field is required'')) \<and>
   validateForm containsAt (janeDoe\<lparr>firstName := [], lastName := [0x20]\<rparr>) LastName \<noteq>
     Some (Some (js ''This field is required''))"
  using name_outside_range_gets_range_message
          [of "janeDoe\<lparr>firstName := [], lastName := [0x20]\<rparr>" containsAt]
    required_neq_firstName_range [THEN not_sym] required_neq_lastName_range [THEN not_sym]
  by simp

text \<open>
  Claim C10. Two snapshots that agree on the value of a field get the same error entry for
  that field, or both none; so the entry that an edit handler patches into the errors after
  a submit depends on the new value of the edited field only, not on what the other fields
  hold.
\<close>

theorem error_entry_depends_on_own_field_only:
  "(valueOf k formData1 = valueOf k formData2 \<longrightarrow>
      validateForm emailSchema formData1 k = validateForm emailSchema formData2 k) \<and>
   (formSubmitted s1 \<and> formSubmitted s2 \<and> edit e s1 = Some (k, v) \<and> edit e s2 = Some (k, v) \<longrightarrow>
      (\<exists>s1' s2'. step emailSchema s1 e = Some s1' \<and> step emailSchema s2 e = Some s2' \<and>
         errors s1' k = errors s2' k))"
proof (intro conjI impI)
  assume "valueOf k formData1 = valueOf k formData2"
  then show "validateForm emailSchema formData1 k = validateForm emailSchema formData2 k"
    by (rule validateForm_cong_field)
next
  assume "formSubmitted s1 \<and> formSubmitted s2 \<and> edit e s1 = Some (k, v) \<and> edit e s2 = Some (k, v)"
  then show "\<exists>s1' s2'. step emailSchema s1 e = Some s1' \<and> step emailSchema s2 e = Some s2' \<and>
         errors s1' k = errors s2' k"
    by (cases e)
      (auto simp: onChange_firstName_def onChange_lastName_def onChange_email_def
        onClick_generalEnquiry_def onClick_supportRequest_def onChange_message_def
        onClick_consent_def Let_def readProp_def validateForm_at)
qed

theorem error_entry_depends_on_own_field_only_witness:
  "validateForm containsAt janeDoe Email =
     validateForm containsAt (janeDoe\<lparr>firstName := [], consent := False\<rparr>) Email \<and>
   (\<exists>s1' s2'.
      step containsAt (initial\<lparr>formSubmitted := True\<rparr>) (ChangeEmail (js ''jane'')) = Some s1' \<and>
      step containsAt (initial\<lparr>formSubmitted := True, firstName_st := js ''Jane'', consent_st := True\<rparr>)
        (ChangeEmail (js ''jane'')) = Some s2' \<and>
      errors s1' Email = errors s2' Email)"
  using error_entry_depends_on_own_field_only
          [of Email janeDoe "janeDoe\<lparr>firstName := [], consent := False\<rparr>" containsAt
            "initial\<lparr>formSubmitted := True\<rparr>"
            "initial\<lparr>formSubmitted := True, firstName_st := js ''Jane'', consent_st := True\<rparr>"
            "ChangeEmail (js ''jane'')" "TextV (js ''jane'')"]
  by simp

section \<open>The store model\<close>

lemma getField_append: "a < length h \<Longrightarrow> getField (h @ [ob]) a k = getField h a k"
  by (simp add: getField_def nth_append)

lemma setField_last: "setField (h @ [ob]) (length h) k v = h @ [ob(k \<mapsto> v)]"
  by (simp add: setField_def)

lemma check_queryType_last:
  "a < length h \<Longrightarrow>
     check_queryType (h @ [ob]) (length h) a =
       h @ [ob(QueryType :=
              if \<not> queryTypeSchema_val (getField h a QueryType)
              then Some (VString (js ''Please select a query type''))
              else ob QueryType)]"
  by (simp add: check_queryType_def getField_append setField_last)

lemma check_firstName_last:
  "a < length h \<Longrightarrow>
     check_firstName (h @ [ob]) (length h) a =
       h @ [ob(FirstName :=
              if \<not> firstNameSchema_val (getField h a FirstName)
              then Some (VString (js ''First name must be between 2 and 50 characters''))
              else if trimsToEmpty (getField h a FirstName)
              then Some (VString (js ''This field is required''))
              else ob FirstName)]"
  by (simp add: check_firstName_def getField_append setField_last)

lemma check_lastName_last:
  "a < length h \<Longrightarrow>
     check_lastName (h @ [ob]) (length h) a =
       h @ [ob(LastName :=
              if \<not> lastNameSchema_val (getField h a LastName)
              then Some (VString (js ''Last name must be between 2 and 50 characters''))
              else if trimsToEmpty (getField h a LastName)
              then Some (VString (js ''This field is required''))
              else ob LastName)]"
  by (simp add: check_lastName_def getField_append setField_last)

lemma check_email_last:
  "a < length h \<Longrightarrow>
     check_email emailSchema (h @ [ob]) (length h) a =
       h @ [ob(Email :=
              if \<not> emailSchema_val emailSchema (getField h a Email)
              then Some (VString (js ''Please enter a valid email address''))
              else ob Email)]"
  by (simp add: check_email_def getField_append setField_last)

lemma check_message_last:
  "a < length h \<Longrightarrow>
     check_message (h @ [ob]) (length h) a =
       h @ [ob(Message :=
              if \<not> messageSchema_val (getField h a Message)
              then Some (VString (js ''Message must be between 10 and 500 characters.''))
              else if trimsToEmpty (getField h a Message)
              then Some (VString (js ''This field is required''))
              else ob Message)]"
  by (simp add: check_message_def getField_append setField_last)

lemma check_consent_last:
  "a < length h \<Longrightarrow>
     check_consent (h @ [ob]) (length h) a =
       h @ [ob(Consent :=
              if \<not> consentSchema_val (getField h a Consent)
              then Some (VString (js ''To submit this form, please consent to being contacted''))
              else ob Consent)]"
  by (simp add: check_consent_def getField_append setField_last)

lemmas check_last =
  check_queryType_last check_firstName_last check_lastName_last check_email_last
  check_message_last check_consent_last

lemma if_branches_cong:
  "b = c \<Longrightarrow> x = u \<Longrightarrow> y = v \<Longrightarrow> (if b then x else y) = (if c then u else v)"
  by simp

lemma validateForm_store_result:
  assumes "a < length h"
  shows "\<exists>ob. validateForm_store emailSchema h a = (length h, h @ [ob]) \<and>
          ob QueryType =
            (if \<not> queryTypeSchema_val (getField h a QueryType)
             then Some (VString (js ''Please select a query type'')) else None) \<and>
          ob FirstName =
            (if \<not> firstNameSchema_val (getField h a FirstName)
             then Some (VString (js ''First name must be between 2 and 50 characters''))
             else if trimsToEmpty (getField h a FirstName)
             then Some (VString (js ''This field is required'')) else None) \<and>
          ob LastName =
            (if \<not> lastNameSchema_val (getField h a LastName)
             then Some (VString (js ''Last name must be between 2 and 50 characters''))
             else if trimsToEmpty (getField h a LastName)
             then Some (VString (js ''This field is required'')) else None) \<and>
          ob Email =
            (if \<not> emailSchema_val emailSchema (getField h a Email)
             then Some (VString (js ''Please enter a valid email address'')) else None) \<and>
          ob Message =
            (if \<not> messageSchema_val (getField h a Message)
             then Some (VString (js ''Message must be between 10 and 500 characters.''))
             else if trimsToEmpty (getField h a Message)
             then Some (VString (js ''This field is required'')) else None) \<and>
          ob Consent =
            (if \<not> consentSchema_val (getField h a Consent)
             then Some (VString (js ''To submit this form, please consent to being contacted''))
             else None)"
  using assms
  by (simp add: validateForm_store_def newObject_def Let_def check_last
      split del: if_split cong: if_branches_cong)


lemma schema_val_typed:
  "queryTypeSchema_val (queryTypeValue q) = queryTypeSchema q"
  "firstNameSchema_val (VString s) = firstNameSchema s"
  "lastNameSchema_val (VString s) = lastNameSchema s"
  "emailSchema_val emailSchema (VString s) = emailSchema s"
  "messageSchema_val (VString s) = messageSchema s"
  "consentSchema_val (VBool b) = consentSchema b"
  "trimsToEmpty (VString s) = (trim s = [])"
  by (simp_all add: queryTypeSchema_val_def queryTypeValue_def queryTypeSchema_def
      firstNameSchema_val_def firstNameSchema_def lastNameSchema_val_def lastNameSchema_def
      emailSchema_val_def messageSchema_val_def messageSchema_def consentSchema_val_def
      consentSchema_def trimsToEmpty_def js_def split: option.split query.split)

lemma validateForm_store_typed:
  assumes "a < length h" and "h ! a = formDataObject formData"
  shows "validateForm_store emailSchema h a =
           (length h, h @ [errorsObject (validateForm emailSchema formData)])"
proof -
  from validateForm_store_result [OF assms(1), of emailSchema] obtain ob where
    r: "validateForm_store emailSchema h a = (length h, h @ [ob])"
    and ob: "ob QueryType =
            (if \<not> queryTypeSchema_val (getField h a QueryType)
             then Some (VString (js ''Please select a query type'')) else None)"
          "ob FirstName =
            (if \<not> firstNameSchema_val (getField h a FirstName)
             then Some (VString (js ''First name must be between 2 and 50 characters''))
             else if trimsToEmpty (getField h a FirstName)
             then Some (VString (js ''This field is required'')) else None)"
          "ob LastName =
            (if \<not> lastNameSchema_val (getField h a LastName)
             then Some (VString (js ''Last name must be between 2 and 50 characters''))
             else if trimsToEmpty (getField h a LastName)
             then Some (VString (js ''This field is required'')) else None)"
          "ob Email =
            (if \<not> emailSchema_val emailSchema (getField h a Email)
             then Some (VString (js ''Please enter a valid email address'')) else None)"
          "ob Message =
            (if \<not> messageSchema_val (getField h a Message)
             then Some (VString (js ''Message must be between 10 and 500 characters.''))
             else if trimsToEmpty (getField h a Message)
             then Some (VString (js ''This field is required'')) else None)"
          "ob Consent =
            (if \<not> consentSchema_val (getField h a Consent)
             then Some (VString (js ''To submit this form, please consent to being contacted''))
             else None)"
    by blast
  have "ob k = errorsObject (validateForm emailSchema formData) k" for k
    by (cases k)
      (simp_all add: ob getField_def assms(2) schema_val_typed errorsObject_def validateForm_at)
  then have "ob = errorsObject (validateForm emailSchema formData)"
    by (rule ext)
  with r show ?thesis by simp
qed

lemma validateForm_store_cong:
  assumes "a1 < length h1" and "a2 < length h2" and "h1 ! a1 = h2 ! a2"
  shows "\<exists>ob. validateForm_store emailSchema h1 a1 = (length h1, h1 @ [ob]) \<and>
           validateForm_store emailSchema h2 a2 = (length h2, h2 @ [ob])"
  using assms
  by (simp add: validateForm_store_def newObject_def Let_def check_last getField_def
      split del: if_split cong: if_branches_cong)

text \<open>
  Claim C8. \<open>validateForm\<close> is pure and deterministic. On the store, a call returns the
  address of a new object and leaves every object that existed, the argument among them,
  as it was; two calls whose arguments hold the same values, in any two stores, return
  objects with the same contents; and for an argument that holds a snapshot the contents
  are those that \<open>validateForm\<close> of the first model returns.
\<close>

theorem validateForm_pure:
  assumes "a1 < length h1" and "a2 < length h2" and "h1 ! a1 = h2 ! a2"
  shows "\<exists>ob. validateForm_store emailSchema h1 a1 = (length h1, h1 @ [ob]) \<and>
           validateForm_store emailSchema h2 a2 = (length h2, h2 @ [ob]) \<and>
           (\<forall>formData. h1 ! a1 = formDataObject formData \<longrightarrow>
              ob = errorsObject (validateForm emailSchema formData))"
proof -
  from validateForm_store_cong [OF assms, of emailSchema] obtain ob where
    r1: "validateForm_store emailSchema h1 a1 = (length h1, h1 @ [ob])"
    and r2: "validateForm_store emailSchema h2 a2 = (length h2, h2 @ [ob])"
    by blast
  have "ob = errorsObject (validateForm emailSchema formData)"
    if "h1 ! a1 = formDataObject formData" for formData
    using validateForm_store_typed [OF assms(1) that, of emailSchema] r1 by simp
  with r1 r2 show ?thesis
    by blast
qed

theorem validateForm_pure_witness:
  "validateForm_store containsAt [formDataObject (janeDoe\<lparr>email := js ''jane''\<rparr>)] 0 =
     (1, [formDataObject (janeDoe\<lparr>email := js ''jane''\<rparr>),
          errorsObject (validateForm containsAt (janeDoe\<lparr>email := js ''jane''\<rparr>))]) \<and>
   validateForm_store containsAt
       [formDataObject janeDoe, formDataObject (janeDoe\<lparr>email := js ''jane''\<rparr>)] 1 =
     (2, [formDataObject janeDoe, formDataObject (janeDoe\<lparr>email := js ''jane''\<rparr>),
          errorsObject (validateForm containsAt (janeDoe\<lparr>email := js ''jane''\<rparr>))]) \<and>
   errorsObject (validateForm containsAt (janeDoe\<lparr>email := js ''jane''\<rparr>)) Email =
     Some (VString (js ''Please enter a valid email address''))"
proof -
  let ?fd = "janeDoe\<lparr>email := js ''jane''\<rparr>"
  have "(0::nat) < length [formDataObject ?fd]"
    and "(1::nat) < length [formDataObject janeDoe, formDataObject ?fd]"
    and "[formDataObject ?fd] ! 0 = [formDataObject janeDoe, formDataObject ?fd] ! 1"
    by simp_all
  from validateForm_pure [OF this, of containsAt] obtain ob where
    "validateForm_store containsAt [formDataObject ?fd] 0 =
       (length [formDataObject ?fd], [formDataObject ?fd] @ [ob])"
    and "validateForm_store containsAt [formDataObject janeDoe, formDataObject ?fd] 1 =
       (length [formDataObject janeDoe, formDataObject ?fd],
        [formDataObject janeDoe, formDataObject ?fd] @ [ob])"
    and "\<forall>formData. [formDataObject ?fd] ! 0 = formDataObject formData \<longrightarrow>
           ob = errorsObject (validateForm containsAt formData)"
    by blast
  note r = this
  from r(3) have ob: "ob = errorsObject (validateForm containsAt ?fd)"
    by simp
  have e: "errorsObject (validateForm containsAt ?fd) Email =
     Some (VString (js ''Please enter a valid email address''))"
    by (simp add: errorsObject_def validateForm_Email js_def)
  from r(1,2) e show ?thesis
    unfolding ob by simp
qed

section \<open>The page as a state machine\<close>

lemmas handler_defs =
  onChange_firstName_def onChange_lastName_def onChange_email_def onClick_generalEnquiry_def
  onClick_supportRequest_def onChange_message_def onClick_consent_def handleFormSubmit_def
  timeoutFires_def

lemma run_append:
  "run emailSchema s (es @ es') =
     (case run emailSchema s es of None \<Rightarrow> None | Some s' \<Rightarrow> run emailSchema s' es')"
  by (induction es arbitrary: s) (simp_all split: option.split)

lemma run_snoc_Some:
  "run emailSchema s (es @ [e]) = Some s'' \<longleftrightarrow>
     (\<exists>s'. run emailSchema s es = Some s' \<and> step emailSchema s' e = Some s'')"
  by (simp add: run_append split: option.split)

lemma run_user_events:
  "\<forall>i. TimeoutFires i \<notin> set es \<Longrightarrow> \<exists>s'. run emailSchema s es = Some s'"
proof (induction es arbitrary: s)
  case Nil
  then show ?case by simp
next
  case (Cons e es)
  then have "\<exists>y. step emailSchema s e = Some y"
    by (cases e) auto
  then obtain y where "step emailSchema s e = Some y" ..
  moreover from Cons have "\<exists>s'. run emailSchema y es = Some s'" by simp
  ultimately show ?case by simp
qed

lemma step_formSubmitted:
  "step emailSchema s e = Some s' \<Longrightarrow> formSubmitted s' = (formSubmitted s \<or> e = Submit)"
  by (cases e) (auto simp: handler_defs Let_def split: if_splits)

lemma step_showPopup:
  "step emailSchema s e = Some s' \<Longrightarrow>
     showPopup s' =
       (case e of
          Submit \<Rightarrow> showPopup s \<or> objectKeys (validateForm emailSchema (getFormData s)) = []
        | TimeoutFires i \<Rightarrow> False
        | _ \<Rightarrow> showPopup s)"
  by (cases e) (auto simp: handler_defs Let_def split: if_splits)

lemma step_errors_unsubmitted:
  "step emailSchema s e = Some s' \<Longrightarrow> \<not> formSubmitted s \<Longrightarrow> e \<noteq> Submit \<Longrightarrow>
     errors s' = errors s"
  by (cases e) (auto simp: handler_defs Let_def split: if_splits)

lemma step_timeouts_no_submit:
  "step emailSchema s e = Some s' \<Longrightarrow> e \<noteq> Submit \<Longrightarrow> set (timeouts s') \<subseteq> set (timeouts s)"
  by (cases e) (auto simp: handler_defs Let_def split: if_splits dest: in_set_takeD in_set_dropD)

lemma before_first_submit:
  "run emailSchema initial es = Some s \<Longrightarrow>
     formSubmitted s = (Submit \<in> set es) \<and>
     (Submit \<notin> set es \<longrightarrow> errors s = Map.empty \<and> \<not> showPopup s \<and> timeouts s = [])"
proof (induction es arbitrary: s rule: rev_induct)
  case Nil
  then show ?case by (auto simp: initial_def)
next
  case (snoc e es)
  from snoc.prems obtain s0 where
    s0: "run emailSchema initial es = Some s0" and st: "step emailSchema s0 e = Some s"
    by (auto simp: run_snoc_Some)
  note IH = snoc.IH [OF s0]
  have "formSubmitted s = (Submit \<in> set (es @ [e]))"
    using IH step_formSubmitted [OF st] by auto
  moreover have "errors s = Map.empty \<and> \<not> showPopup s \<and> timeouts s = []"
    if "Submit \<notin> set (es @ [e])"
  proof -
    from that have ne: "e \<noteq> Submit" and nes: "Submit \<notin> set es" by auto
    with IH have u: "\<not> formSubmitted s0" and e0: "errors s0 = Map.empty"
      and p0: "\<not> showPopup s0" and t0: "timeouts s0 = []" by auto
    have "errors s = Map.empty"
      using step_errors_unsubmitted [OF st u ne] e0 by simp
    moreover have "\<not> showPopup s"
      using step_showPopup [OF st] p0 ne by (cases e) simp_all
    moreover have "timeouts s = []"
      using step_timeouts_no_submit [OF st ne] t0 by simp
    ultimately show ?thesis by simp
  qed
  ultimately show ?case by blast
qed


lemma edit_step:
  assumes "edit e s = Some (k, v)"
  shows "\<exists>s'. step emailSchema s e = Some s' \<and>
           valueOf k (getFormData s') = v \<and>
           (\<forall>k'. k' \<noteq> k \<longrightarrow> valueOf k' (getFormData s') = valueOf k' (getFormData s)) \<and>
           errors s' =
             (if formSubmitted s
              then (errors s)(k \<mapsto> readProp (validateForm emailSchema (getFormData s')) k)
              else errors s) \<and>
           formSubmitted s' = formSubmitted s \<and> showPopup s' = showPopup s \<and>
           timeouts s' = timeouts s \<and> clock s' = clock s"
proof (cases e)
  case (ChangeFirstName x)
  with assms have kv: "k = FirstName" "v = TextV x" by simp_all
  have "k' \<noteq> FirstName \<Longrightarrow>
          valueOf k' (getFormData (onChange_firstName emailSchema x s)) = valueOf k' (getFormData s)" for k'
    by (cases k') (simp_all add: onChange_firstName_def getFormData_def Let_def)
  then show ?thesis
    unfolding ChangeFirstName kv
    by (simp add: onChange_firstName_def getFormData_def Let_def)
next
  case (ChangeLastName x)
  with assms have kv: "k = LastName" "v = TextV x" by simp_all
  have "k' \<noteq> LastName \<Longrightarrow>
          valueOf k' (getFormData (onChange_lastName emailSchema x s)) = valueOf k' (getFormData s)" for k'
    by (cases k') (simp_all add: onChange_lastName_def getFormData_def Let_def)
  then show ?thesis
    unfolding ChangeLastName kv
    by (simp add: onChange_lastName_def getFormData_def Let_def)
next
  case (ChangeEmail x)
  with assms have kv: "k = Email" "v = TextV x" by simp_all
  have "k' \<noteq> Email \<Longrightarrow>
          valueOf k' (getFormData (onChange_email emailSchema x s)) = valueOf k' (getFormData s)" for k'
    by (cases k') (simp_all add: onChange_email_def getFormData_def Let_def)
  then show ?thesis
    unfolding ChangeEmail kv
    by (simp add: onChange_email_def getFormData_def Let_def)
next
  case ClickGeneralEnquiry
  with assms have kv: "k = QueryType" "v = QueryV (Some generalEnquiry)" by simp_all
  have "k' \<noteq> QueryType \<Longrightarrow>
          valueOf k' (getFormData (onClick_generalEnquiry emailSchema s)) = valueOf k' (getFormData s)" for k'
    by (cases k') (simp_all add: onClick_generalEnquiry_def getFormData_def Let_def)
  then show ?thesis
    unfolding ClickGeneralEnquiry kv
    by (simp add: onClick_generalEnquiry_def getFormData_def Let_def)
next
  case ClickSupportRequest
  with assms have kv: "k = QueryType" "v = QueryV (Some supportRequest)" by simp_all
  have "k' \<noteq> QueryType \<Longrightarrow>
          valueOf k' (getFormData (onClick_supportRequest emailSchema s)) = valueOf k' (getFormData s)" for k'
    by (cases k') (simp_all add: onClick_supportRequest_def getFormData_def Let_def)
  then show ?thesis
    unfolding ClickSupportRequest kv
    by (simp add: onClick_supportRequest_def getFormData_def Let_def)
next
  case (ChangeMessage x)
  with assms have kv: "k = Message" "v = TextV x" by simp_all
  have "k' \<noteq> Message \<Longrightarrow>
          valueOf k' (getFormData (onChange_message emailSchema x s)) = valueOf k' (getFormData s)" for k'
    by (cases k') (simp_all add: onChange_message_def getFormData_def Let_def)
  then show ?thesis
    unfolding ChangeMessage kv
    by (simp add: onChange_message_def getFormData_def Let_def)
next
  case ClickConsent
  with assms have kv: "k = Consent" "v = BoolV (\<not> consent_st s)" by simp_all
  have "k' \<noteq> Consent \<Longrightarrow>
          valueOf k' (getFormData (onClick_consent emailSchema s)) = valueOf k' (getFormData s)" for k'
    by (cases k') (simp_all add: onClick_consent_def getFormData_def Let_def)
  then show ?thesis
    unfolding ClickConsent kv
    by (simp add: onClick_consent_def getFormData_def Let_def)
next
  case Submit
  with assms show ?thesis by simp
next
  case (Elapse d)
  with assms show ?thesis by simp
next
  case (TimeoutFires i)
  with assms show ?thesis by simp
qed



lemma getFormData_filledIn: "getFormData filledIn = janeDoe"
  by (simp add: getFormData_def)

lemma validateForm_janeDoe: "validateForm containsAt janeDoe = Map.empty"
proof
  fix k
  show "validateForm containsAt janeDoe k = None"
    using key_iff_rule_violated [of containsAt janeDoe k] janeDoe_satisfies_rules [of k] by simp
qed

lemma objectKeys_empty: "objectKeys Map.empty = []"
  by (simp add: objectKeys_def)

lemma submit_filledIn:
  "handleFormSubmit containsAt filledIn =
     filledIn\<lparr>formSubmitted := True, showPopup := True, timeouts := [5000]\<rparr>"
  by (simp add: handleFormSubmit_def getFormData_filledIn validateForm_janeDoe objectKeys_empty)

lemma validateForm_untouched:
  assumes "\<not> emailSchema []"
  shows "validateForm emailSchema
           \<lparr>queryType = None, firstName = [], lastName = [], email = [], message = [],
            consent = False\<rparr> =
         [QueryType \<mapsto> Some (js ''Please select a query type''),
          FirstName \<mapsto> Some (js ''First name must be between 2 and 50 characters''),
          LastName \<mapsto> Some (js ''Last name must be between 2 and 50 characters''),
          Email \<mapsto> Some (js ''Please enter a valid email address''),
          Message \<mapsto> Some (js ''Message must be between 10 and 500 characters.''),
          Consent \<mapsto> Some (js ''To submit this form, please consent to being contacted'')]"
proof
  fix k
  show "validateForm emailSchema
           \<lparr>queryType = None, firstName = [], lastName = [], email = [], message = [],
            consent = False\<rparr> k =
         [QueryType \<mapsto> Some (js ''Please select a query type''),
          FirstName \<mapsto> Some (js ''First name must be between 2 and 50 characters''),
          LastName \<mapsto> Some (js ''Last name must be between 2 and 50 characters''),
          Email \<mapsto> Some (js ''Please enter a valid email address''),
          Message \<mapsto> Some (js ''Message must be between 10 and 500 characters.''),
          Consent \<mapsto> Some (js ''To submit this form, please consent to being contacted'')] k"
    using assms
    by (cases k)
      (simp_all add: validateForm_at queryTypeSchema_def firstNameSchema_def lastNameSchema_def
        messageSchema_def consentSchema_def)
qed

text \<open>
  Claim C3. Before the first submit, with every field still at its initial value (no query
  type, empty strings, no consent), a submit stores an errors object with all six keys
  populated, sets \<open>formSubmitted\<close> and does not show the popup. The email schema is
  taken to reject the empty string.
\<close>

theorem submit_untouched_form:
  assumes "\<not> emailSchema []"
    and "run emailSchema initial es = Some s"
    and "\<not> formSubmitted s"
    and "getFormData s =
           \<lparr>queryType = None, firstName = [], lastName = [], email = [], message = [],
            consent = False\<rparr>"
  shows "\<exists>s'. step emailSchema s Submit = Some s' \<and>
           errors s' =
             [QueryType \<mapsto> Some (js ''Please select a query type''),
              FirstName \<mapsto> Some (js ''First name must be between 2 and 50 characters''),
              LastName \<mapsto> Some (js ''Last name must be between 2 and 50 characters''),
              Email \<mapsto> Some (js ''Please enter a valid email address''),
              Message \<mapsto> Some (js ''Message must be between 10 and 500 characters.''),
              Consent \<mapsto> Some (js ''To submit this form, please consent to being contacted'')] \<and>
           objectKeys (errors s') = [QueryType, FirstName, LastName, Email, Message, Consent] \<and>
           formSubmitted s' \<and> \<not> showPopup s' \<and> timeouts s' = []"
proof -
  from assms(2,3) have quiet: "\<not> showPopup s" "timeouts s = []"
    using before_first_submit [of emailSchema es s] by auto
  let ?six = "[QueryType \<mapsto> Some (js ''Please select a query type''),
              FirstName \<mapsto> Some (js ''First name must be between 2 and 50 characters''),
              LastName \<mapsto> Some (js ''Last name must be between 2 and 50 characters''),
              Email \<mapsto> Some (js ''Please enter a valid email address''),
              Message \<mapsto> Some (js ''Message must be between 10 and 500 characters.''),
              Consent \<mapsto> Some (js ''To submit this form, please consent to being contacted'')]"
  have v: "validateForm emailSchema (getFormData s) = ?six"
    using validateForm_untouched [of emailSchema] assms(1,4) by simp
  have keys: "objectKeys ?six = [QueryType, FirstName, LastName, Email, Message, Consent]"
    by (simp add: objectKeys_def propertyNames_def)
  show ?thesis
    using quiet by (simp add: handleFormSubmit_def Let_def v keys del: fun_upd_apply)
qed

theorem submit_untouched_form_witness:
  "\<exists>s'. step containsAt (initial\<lparr>clock := 1500\<rparr>) Submit = Some s' \<and>
     errors s' =
       [QueryType \<mapsto> Some (js ''Please select a query type''),
        FirstName \<mapsto> Some (js ''First name must be between 2 and 50 characters''),
        LastName \<mapsto> Some (js ''Last name must be between 2 and 50 characters''),
        Email \<mapsto> Some (js ''Please enter a valid email address''),
        Message \<mapsto> Some (js ''Message must be between 10 and 500 characters.''),
        Consent \<mapsto> Some (js ''To submit this form, please consent to being contacted'')] \<and>
     objectKeys (errors s') = [QueryType, FirstName, LastName, Email, Message, Consent] \<and>
     formSubmitted s' \<and> \<not> showPopup s' \<and> timeouts s' = []"
proof -
  have r: "run containsAt initial [Elapse 1500] = Some (initial\<lparr>clock := 1500\<rparr>)"
    by (simp add: initial_def)
  have e: "\<not> containsAt []"
    by simp
  have u: "\<not> formSubmitted (initial\<lparr>clock := 1500\<rparr>)"
    by (simp add: initial_def)
  have g: "getFormData (initial\<lparr>clock := 1500\<rparr>) =
           \<lparr>queryType = None, firstName = [], lastName = [], email = [], message = [],
            consent = False\<rparr>"
    by (simp add: initial_def getFormData_def)
  show ?thesis
    using submit_untouched_form [of containsAt "[Elapse 1500]" "initial\<lparr>clock := 1500\<rparr>"] e r u g
    by blast
qed

text \<open>
  Claim C4. Once the form has been submitted, an edit of one field validates the snapshot
  that holds the new value of that field and the current values of the others, and changes
  the entry of that field only: reading it gives the error of the new snapshot for the
  field, or \<open>undefined\<close> when there is none, and the entry of every other field
  is what it was. After a failed submit, a valid email address clears \<open>errors.email\<close>
  and nothing else.
\<close>

theorem edit_after_submit_patches_one_entry:
  assumes "formSubmitted s" and "edit e s = Some (k, v)"
  shows "\<exists>s'. step emailSchema s e = Some s' \<and>
           valueOf k (getFormData s') = v \<and>
           (\<forall>k'. k' \<noteq> k \<longrightarrow> valueOf k' (getFormData s') = valueOf k' (getFormData s)) \<and>
           readProp (errors s') k = readProp (validateForm emailSchema (getFormData s')) k \<and>
           (\<forall>k'. k' \<noteq> k \<longrightarrow> errors s' k' = errors s k') \<and>
           formSubmitted s'"
proof -
  from edit_step [OF assms(2), of emailSchema] obtain s' where
    st: "step emailSchema s e = Some s'"
    and v: "valueOf k (getFormData s') = v"
    and others: "\<forall>k'. k' \<noteq> k \<longrightarrow> valueOf k' (getFormData s') = valueOf k' (getFormData s)"
    and err: "errors s' =
             (if formSubmitted s
              then (errors s)(k \<mapsto> readProp (validateForm emailSchema (getFormData s')) k)
              else errors s)"
    and sub: "formSubmitted s' = formSubmitted s"
    by blast
  from err assms(1) have
    e: "errors s' = (errors s)(k \<mapsto> readProp (validateForm emailSchema (getFormData s')) k)"
    by simp
  have "readProp (errors s') k = readProp (validateForm emailSchema (getFormData s')) k"
    by (simp add: e readProp_def)
  moreover have "\<forall>k'. k' \<noteq> k \<longrightarrow> errors s' k' = errors s k'"
    by (simp add: e)
  ultimately show ?thesis
    using st v others sub assms(1) by blast
qed

lemma submit_initial:
  "handleFormSubmit containsAt initial =
     initial\<lparr>formSubmitted := True,
       errors := [QueryType \<mapsto> Some (js ''Please select a query type''),
          FirstName \<mapsto> Some (js ''First name must be between 2 and 50 characters''),
          LastName \<mapsto> Some (js ''Last name must be between 2 and 50 characters''),
          Email \<mapsto> Some (js ''Please enter a valid email address''),
          Message \<mapsto> Some (js ''Message must be between 10 and 500 characters.''),
          Consent \<mapsto> Some (js ''To submit this form, please consent to being contacted'')]\<rparr>"
proof -
  have g: "getFormData initial =
           \<lparr>queryType = None, firstName = [], lastName = [], email = [], message = [],
            consent = False\<rparr>"
    by (simp add: initial_def getFormData_def)
  have k: "objectKeys (validateForm containsAt (getFormData initial)) \<noteq> []"
    unfolding g by (simp add: objectKeys_def propertyNames_def validateForm_at queryTypeSchema_def)
  show ?thesis
    using k unfolding handleFormSubmit_def Let_def
    by (simp add: g validateForm_untouched [of containsAt] del: fun_upd_apply)
qed

theorem edit_after_submit_patches_one_entry_witness:
  "\<exists>s'. step containsAt (handleFormSubmit containsAt initial)
            (ChangeEmail (js ''jane@example.com'')) = Some s' \<and>
     email (getFormData s') = js ''jane@example.com'' \<and>
     readProp (errors s') Email = None \<and>
     errors s' QueryType = errors (handleFormSubmit containsAt initial) QueryType \<and>
     errors s' FirstName = errors (handleFormSubmit containsAt initial) FirstName \<and>
     errors s' LastName = errors (handleFormSubmit containsAt initial) LastName \<and>
     errors s' Message = errors (handleFormSubmit containsAt initial) Message \<and>
     errors s' Consent = errors (handleFormSubmit containsAt initial) Consent \<and>
     readProp (errors (handleFormSubmit containsAt initial)) Email =
       Some (js ''Please enter a valid email address'') \<and>
     readProp (errors s') FirstName = Some (js ''First name must be between 2 and 50 characters'')"
proof -
  let ?s = "handleFormSubmit containsAt initial"
  have sub: "formSubmitted ?s"
    by (simp add: submit_initial)
  have ed: "edit (ChangeEmail (js ''jane@example.com'')) ?s = Some (Email, TextV (js ''jane@example.com''))"
    by simp
  from edit_after_submit_patches_one_entry [OF sub ed, of containsAt] obtain s' where
    st: "step containsAt ?s (ChangeEmail (js ''jane@example.com'')) = Some s'"
    and v: "valueOf Email (getFormData s') = TextV (js ''jane@example.com'')"
    and r: "readProp (errors s') Email = readProp (validateForm containsAt (getFormData s')) Email"
    and o: "\<forall>k'. k' \<noteq> Email \<longrightarrow> errors s' k' = errors ?s k'"
    by blast
  from v have em: "email (getFormData s') = js ''jane@example.com''"
    by simp
  have "readProp (errors s') Email = None"
    unfolding r by (simp add: validateForm_Email em readProp_def js_def)
  moreover from o have "errors s' FirstName = errors ?s FirstName"
    by simp
  then have "readProp (errors s') FirstName =
      Some (js ''First name must be between 2 and 50 characters'')"
    by (simp add: readProp_def submit_initial)
  moreover have "readProp (errors ?s) Email = Some (js ''Please enter a valid email address'')"
    by (simp add: readProp_def submit_initial)
  moreover from o have "errors s' QueryType = errors ?s QueryType"
    and "errors s' FirstName = errors ?s FirstName"
    and "errors s' LastName = errors ?s LastName"
    and "errors s' Message = errors ?s Message"
    and "errors s' Consent = errors ?s Consent"
    by simp_all
  ultimately show ?thesis
    using st em by blast
qed








text \<open>
  Claim C7. \<open>formSubmitted\<close> is false at the start and true in every state reached
  after a submit: no event resets it. While it is false an edit changes the value of its
  field and nothing else, no error is computed, and the errors object stays empty.
\<close>

theorem formSubmitted_permanent:
  assumes "run emailSchema initial es = Some s"
  shows "formSubmitted s = (Submit \<in> set es) \<and>
         (Submit \<notin> set es \<longrightarrow> errors s = Map.empty) \<and>
         (\<forall>e k v. \<not> formSubmitted s \<and> edit e s = Some (k, v) \<longrightarrow>
            (\<exists>s'. step emailSchema s e = Some s' \<and>
               valueOf k (getFormData s') = v \<and>
               (\<forall>k'. k' \<noteq> k \<longrightarrow> valueOf k' (getFormData s') = valueOf k' (getFormData s)) \<and>
               errors s' = errors s \<and> formSubmitted s' = formSubmitted s \<and>
               showPopup s' = showPopup s \<and> timeouts s' = timeouts s \<and> clock s' = clock s))"
proof (intro conjI allI impI)
  show "formSubmitted s = (Submit \<in> set es)"
    using before_first_submit [OF assms] by simp
next
  assume "Submit \<notin> set es"
  then show "errors s = Map.empty"
    using before_first_submit [OF assms] by simp
next
  fix e k v
  assume a: "\<not> formSubmitted s \<and> edit e s = Some (k, v)"
  then have "edit e s = Some (k, v)" by simp
  from edit_step [OF this, of emailSchema] a
  show "\<exists>s'. step emailSchema s e = Some s' \<and>
               valueOf k (getFormData s') = v \<and>
               (\<forall>k'. k' \<noteq> k \<longrightarrow> valueOf k' (getFormData s') = valueOf k' (getFormData s)) \<and>
               errors s' = errors s \<and> formSubmitted s' = formSubmitted s \<and>
               showPopup s' = showPopup s \<and> timeouts s' = timeouts s \<and> clock s' = clock s"
    by auto
qed

theorem formSubmitted_permanent_witness:
  "(\<exists>s. run containsAt initial [ChangeFirstName (js ''J''), Submit, ChangeEmail (js ''x'')] = Some s \<and>
        formSubmitted s) \<and>
   (\<exists>s. run containsAt initial [ChangeFirstName (js ''J''), ClickConsent] = Some s \<and>
        \<not> formSubmitted s \<and> errors s = Map.empty \<and>
        (\<exists>s'. step containsAt s (ChangeEmail (js ''x'')) = Some s' \<and> errors s' = Map.empty \<and>
           valueOf Email (getFormData s') = TextV (js ''x'') \<and> \<not> formSubmitted s'))"
proof
  let ?es = "[ChangeFirstName (js ''J''), Submit, ChangeEmail (js ''x'')]"
  have "\<forall>i. TimeoutFires i \<notin> set ?es" by simp
  from run_user_events [OF this, of containsAt initial] obtain s where
    r: "run containsAt initial ?es = Some s" ..
  from formSubmitted_permanent [OF r] have "formSubmitted s" by simp
  with r show "\<exists>s. run containsAt initial ?es = Some s \<and> formSubmitted s" by blast
next
  let ?es = "[ChangeFirstName (js ''J''), ClickConsent]"
  have "\<forall>i. TimeoutFires i \<notin> set ?es" by simp
  from run_user_events [OF this, of containsAt initial] obtain s where
    r: "run containsAt initial ?es = Some s" ..
  note fp = formSubmitted_permanent [OF r]
  from fp have u: "\<not> formSubmitted s" and e: "errors s = Map.empty" by simp_all
  have ed: "edit (ChangeEmail (js ''x'')) s = Some (Email, TextV (js ''x''))" by simp
  from fp u ed obtain s' where
    "step containsAt s (ChangeEmail (js ''x'')) = Some s'"
    "valueOf Email (getFormData s') = TextV (js ''x'')"
    "errors s' = errors s" "formSubmitted s' = formSubmitted s"
    by blast
  with r u e show "\<exists>s. run containsAt initial ?es = Some s \<and>
        \<not> formSubmitted s \<and> errors s = Map.empty \<and>
        (\<exists>s'. step containsAt s (ChangeEmail (js ''x'')) = Some s' \<and> errors s' = Map.empty \<and>
           valueOf Email (getFormData s') = TextV (js ''x'') \<and> \<not> formSubmitted s')"
    by auto
qed


lemma step_clock_timeouts:
  "step emailSchema x e = Some x' \<Longrightarrow>
     clock x \<le> clock x' \<and>
     (\<forall>t\<in>set (timeouts x'). t \<in> set (timeouts x) \<or> (e = Submit \<and> t = clock x + 5000)) \<and>
     (\<forall>i. e = TimeoutFires i \<longrightarrow> i < length (timeouts x) \<and> timeouts x ! i \<le> clock x)"
  by (cases e) (auto simp: handler_defs Let_def split: if_splits dest: in_set_takeD in_set_dropD)

lemma step_popup_lower_bound:
  assumes st: "step emailSchema x e = Some x'"
    and U: "\<exists>u\<in>U. u \<le> c0 + 5000"
    and c: "c0 \<le> clock x"
    and t: "\<forall>t\<in>set (timeouts x). \<exists>u\<in>U. u \<le> t"
    and p: "showPopup x \<or> (\<exists>u\<in>U. u \<le> clock x)"
  shows "c0 \<le> clock x' \<and> (\<forall>t\<in>set (timeouts x'). \<exists>u\<in>U. u \<le> t) \<and>
         (showPopup x' \<or> (\<exists>u\<in>U. u \<le> clock x'))"
proof (intro conjI)
  note ct = step_clock_timeouts [OF st]
  from ct c show "c0 \<le> clock x'" by simp
  show "\<forall>t\<in>set (timeouts x'). \<exists>u\<in>U. u \<le> t"
  proof
    fix t' assume "t' \<in> set (timeouts x')"
    with ct have "t' \<in> set (timeouts x) \<or> t' = clock x + 5000" by blast
    then show "\<exists>u\<in>U. u \<le> t'"
    proof
      assume "t' \<in> set (timeouts x)"
      with t show ?thesis by blast
    next
      assume "t' = clock x + 5000"
      moreover from U obtain u where "u \<in> U" "u \<le> c0 + 5000" by blast
      ultimately show ?thesis using c by (intro bexI [of _ u]) simp_all
    qed
  qed
  show "showPopup x' \<or> (\<exists>u\<in>U. u \<le> clock x')"
  proof (cases "\<exists>i. e = TimeoutFires i")
    case True
    then obtain i where e: "e = TimeoutFires i" ..
    with ct have "i < length (timeouts x)" "timeouts x ! i \<le> clock x" by simp_all
    moreover from this t obtain u where "u \<in> U" "u \<le> timeouts x ! i"
      using nth_mem by blast
    ultimately have "u \<le> clock x'" using ct by simp
    with \<open>u \<in> U\<close> show ?thesis by blast
  next
    case False
    show ?thesis
    proof (cases "showPopup x")
      case True
      with step_showPopup [OF st] False show ?thesis by (cases e) simp_all
    next
      case False
      with p obtain u where "u \<in> U" "u \<le> clock x" by blast
      with ct have "u \<le> clock x'" by simp
      with \<open>u \<in> U\<close> show ?thesis by blast
    qed
  qed
qed

lemma run_popup_lower_bound:
  assumes "run emailSchema x es = Some x'"
    and "\<exists>u\<in>U. u \<le> c0 + 5000"
    and "c0 \<le> clock x"
    and "\<forall>t\<in>set (timeouts x). \<exists>u\<in>U. u \<le> t"
    and "showPopup x \<or> (\<exists>u\<in>U. u \<le> clock x)"
  shows "showPopup x' \<or> (\<exists>u\<in>U. u \<le> clock x')"
  using assms
proof (induction es arbitrary: x)
  case Nil
  then show ?case by simp
next
  case (Cons e es)
  from Cons.prems(1) obtain y where
    st: "step emailSchema x e = Some y" and r: "run emailSchema y es = Some x'"
    by (auto split: option.splits)
  from step_popup_lower_bound [OF st Cons.prems(2,3,4,5)]
  have "c0 \<le> clock y" "\<forall>t\<in>set (timeouts y). \<exists>u\<in>U. u \<le> t"
    "showPopup y \<or> (\<exists>u\<in>U. u \<le> clock y)"
    by blast+
  from Cons.IH [OF r Cons.prems(2) this] show ?case .
qed

text \<open>
  Claim C6. A submit of a valid snapshot sets \<open>showPopup\<close> and adds a timeout due
  5000 ms later, keeping the timeouts that were pending. A timeout fires no earlier than
  its due time, sets \<open>showPopup\<close> to false and leaves the other timeouts pending.
  So, whatever events follow, the popup cannot be hidden before the earliest pending due
  time; when no timeout was pending at the submit, that is 5000 ms after it.
\<close>

theorem valid_submit_popup_timer:
  assumes "objectKeys (validateForm emailSchema (getFormData s)) = []"
  shows "\<exists>s1. step emailSchema s Submit = Some s1 \<and> showPopup s1 \<and> clock s1 = clock s \<and>
           timeouts s1 = timeouts s @ [clock s + 5000] \<and>
           (\<forall>es s'. run emailSchema s1 es = Some s' \<and> \<not> showPopup s' \<longrightarrow>
              (\<exists>t\<in>set (timeouts s1). t \<le> clock s')) \<and>
           (timeouts s = [] \<longrightarrow>
              (\<forall>es s'. run emailSchema s1 es = Some s' \<and> \<not> showPopup s' \<longrightarrow>
                 clock s + 5000 \<le> clock s')) \<and>
           (\<forall>x i x'. step emailSchema x (TimeoutFires i) = Some x' \<longrightarrow>
              i < length (timeouts x) \<and> timeouts x ! i \<le> clock x \<and> \<not> showPopup x' \<and>
              timeouts x' = take i (timeouts x) @ drop (Suc i) (timeouts x))"
proof -
  let ?s1 = "handleFormSubmit emailSchema s"
  have p: "showPopup ?s1" and c: "clock ?s1 = clock s"
    and t: "timeouts ?s1 = timeouts s @ [clock s + 5000]"
    using assms by (simp_all add: handleFormSubmit_def Let_def)
  have bound: "\<exists>t\<in>set (timeouts ?s1). t \<le> clock s'"
    if "run emailSchema ?s1 es = Some s' \<and> \<not> showPopup s'" for es s'
  proof -
    from that have r: "run emailSchema ?s1 es = Some s'" and np: "\<not> showPopup s'" by simp_all
    have "showPopup s' \<or> (\<exists>u\<in>set (timeouts ?s1). u \<le> clock s')"
    proof (rule run_popup_lower_bound [OF r, where ?c0.0 = "clock s"])
      show "\<exists>u\<in>set (timeouts ?s1). u \<le> clock s + 5000" by (simp add: t)
      show "clock s \<le> clock ?s1" by (simp add: c)
      show "\<forall>t\<in>set (timeouts ?s1). \<exists>u\<in>set (timeouts ?s1). u \<le> t" by blast
      show "showPopup ?s1 \<or> (\<exists>u\<in>set (timeouts ?s1). u \<le> clock ?s1)" using p by simp
    qed
    with np show ?thesis by simp
  qed
  have fires: "i < length (timeouts x) \<and> timeouts x ! i \<le> clock x \<and> \<not> showPopup x' \<and>
              timeouts x' = take i (timeouts x) @ drop (Suc i) (timeouts x)"
    if "step emailSchema x (TimeoutFires i) = Some x'" for x i x'
    using that by (auto simp: timeoutFires_def split: if_splits)
  have single: "clock s + 5000 \<le> clock s'"
    if "timeouts s = []" and "run emailSchema ?s1 es = Some s' \<and> \<not> showPopup s'" for es s'
    using bound [OF that(2)] that(1) by (simp add: t)
  have "step emailSchema s Submit = Some ?s1" by simp
  with p c t bound fires single show ?thesis by blast
qed

theorem valid_submit_popup_timer_witness:
  "showPopup (handleFormSubmit containsAt filledIn) \<and>
   timeouts (handleFormSubmit containsAt filledIn) = [5000] \<and>
   (\<exists>s'. run containsAt (handleFormSubmit containsAt filledIn) [Elapse 5000, TimeoutFires 0] = Some s' \<and>
      \<not> showPopup s' \<and> clock filledIn + 5000 \<le> clock s' \<and> timeouts s' = []) \<and>
   run containsAt (handleFormSubmit containsAt filledIn) [Elapse 4999, TimeoutFires 0] = None"
proof -
  let ?s1 = "handleFormSubmit containsAt filledIn"
  let ?x = "filledIn\<lparr>formSubmitted := True, showPopup := True, timeouts := [5000], clock := 5000\<rparr>"
  let ?s' = "filledIn\<lparr>formSubmitted := True, showPopup := False, timeouts := [], clock := 5000\<rparr>"
  have valid: "objectKeys (validateForm containsAt (getFormData filledIn)) = []"
    by (simp only: getFormData_filledIn validateForm_janeDoe objectKeys_empty)
  have st: "step containsAt filledIn Submit = Some ?s1"
    by simp
  have wait: "run containsAt ?s1 [Elapse 5000] = Some ?x"
    by (simp add: submit_filledIn)
  have fire: "step containsAt ?x (TimeoutFires 0) = Some ?s'"
    by (simp add: timeoutFires_def)
  have late: "run containsAt ?s1 [Elapse 5000, TimeoutFires 0] = Some ?s'"
    by (simp add: submit_filledIn timeoutFires_def)
  have early: "run containsAt ?s1 [Elapse 4999, TimeoutFires 0] = None"
    by (simp add: submit_filledIn timeoutFires_def)
  have hidden: "\<not> showPopup ?s'" and none: "timeouts filledIn = []"
    by simp_all
  from valid_submit_popup_timer [OF valid] st
  have shown: "showPopup ?s1"
    and pending: "timeouts ?s1 = timeouts filledIn @ [clock filledIn + 5000]"
    and earliest: "\<forall>es s'. run containsAt ?s1 es = Some s' \<and> \<not> showPopup s' \<longrightarrow>
             (\<exists>t\<in>set (timeouts ?s1). t \<le> clock s')"
    and single: "timeouts filledIn = [] \<longrightarrow>
          (\<forall>es s'. run containsAt ?s1 es = Some s' \<and> \<not> showPopup s' \<longrightarrow>
             clock filledIn + 5000 \<le> clock s')"
    and fires: "\<forall>x i x'. step containsAt x (TimeoutFires i) = Some x' \<longrightarrow>
              i < length (timeouts x) \<and> timeouts x ! i \<le> clock x \<and> \<not> showPopup x' \<and>
              timeouts x' = take i (timeouts x) @ drop (Suc i) (timeouts x)"
    by auto
  from pending have "timeouts ?s1 = [5000]"
    by simp
  moreover from single none late hidden have "clock filledIn + 5000 \<le> clock ?s'"
    by blast
  moreover from earliest late hidden have "\<exists>t\<in>set (timeouts ?s1). t \<le> clock ?s'"
    by blast
  moreover from fires fire have "timeouts ?x ! 0 \<le> clock ?x \<and> \<not> showPopup ?s'"
    by blast
  ultimately show ?thesis
    using shown late early by simp
qed

end
